theory Spec2Isabelle
  imports Complex_Main
begin

section \<open>The matrix scaler of GTools/util.py\<close>

text \<open>
  \<^verbatim>\<open>scaleMatrix(mat, scale, strict=True)\<close> takes a two-dimensional numpy array and an
  integer scale (one number, or a pair for the y and the x axis). A positive scale
  repeats every cell, a negative scale averages blocks of cells, and with
  \<^verbatim>\<open>strict=False\<close> a dimension that the scale does not divide is padded with zeros,
  the edge cells being corrected afterwards.

  The embedding: a two-dimensional array is the list of its rows. Cell values are
  real numbers: the arithmetic of the function (sums, one division, products) is
  taken exactly, so integer and float arrays are both covered and rounding of
  floating-point numbers is left out. The operator \<^verbatim>\<open>/\<close> is the true division of
  Python 3 (the source writes \<^verbatim>\<open>//\<close> where it wants the quotient). Every exception of
  the source is a value of \<open>error\<close>, and a call returns \<open>error + matrix\<close>.

  An array without rows is the empty list, of shape \<open>(0, 0)\<close>: the shapes \<open>(0, n)\<close>
  with \<open>n > 0\<close> of numpy have no counterpart here. The grids of the specification have
  at least one row and one column.
\<close>

subsection \<open>Arrays and errors\<close>

type_synonym matrix = "real list list"

datatype error =
    ValueError string
  | IndexError string
  | GToolsError string

definition shape0 :: "matrix \<Rightarrow> nat" where
  "shape0 m = length m"

definition shape1 :: "matrix \<Rightarrow> nat" where
  "shape1 m = (case m of [] \<Rightarrow> 0 | r # _ \<Rightarrow> length r)"

text \<open>A numpy array is rectangular: every row has \<open>shape1\<close> cells.\<close>

definition is_matrix :: "matrix \<Rightarrow> bool" where
  "is_matrix m = list_all (\<lambda>r. length r = shape1 m) m"

text \<open>\<^verbatim>\<open>np.zeros((r, c))\<close>\<close>

definition np_zeros :: "nat \<Rightarrow> nat \<Rightarrow> matrix" where
  "np_zeros r c = replicate r (replicate c 0)"

text \<open>
  \<^verbatim>\<open>xs[start::step]\<close> for \<open>step > 0\<close>: the items at \<open>start\<close>, \<open>start + step\<close>, ...
  below the length; there are \<open>ceil ((length xs - start) / step)\<close> of them.
\<close>

definition strided :: "nat \<Rightarrow> nat \<Rightarrow> 'a list \<Rightarrow> 'a list" where
  "strided start step xs =
     map (\<lambda>k. xs ! (start + k * step)) [0..<(length xs - start + (step - 1)) div step]"

text \<open>\<^verbatim>\<open>mat[yo::yScale, xo::xScale]\<close>\<close>

definition slice2 :: "nat \<Rightarrow> nat \<Rightarrow> nat \<Rightarrow> nat \<Rightarrow> matrix \<Rightarrow> matrix" where
  "slice2 yo yScale xo xScale mat = map (strided xo xScale) (strided yo yScale mat)"

definition broadcast_error :: error where
  "broadcast_error = ValueError ''operands could not be broadcast together''"

text \<open>
  \<^verbatim>\<open>xs[start::step] = vs\<close> where \<open>vs\<close> has as many items as the slice: position \<open>p\<close>
  is in the slice when \<open>start \<le> p\<close> and \<open>step\<close> divides \<open>p - start\<close>.
\<close>

definition set_strided :: "nat \<Rightarrow> nat \<Rightarrow> 'a list \<Rightarrow> 'a list \<Rightarrow> 'a list" where
  "set_strided start step vs xs =
     map (\<lambda>p. if start \<le> p \<and> (p - start) mod step = 0
               then vs ! ((p - start) div step) else xs ! p) [0..<length xs]"

text \<open>
  \<^verbatim>\<open>out[yo::yScale, xo::xScale] = mat\<close>. numpy refuses the assignment when the
  shape of \<open>mat\<close> is not the shape of the slice (shapes of different sizes that
  numpy would broadcast do not occur here: the slice has the shape of \<open>mat\<close> in
  every call, see \<open>scale_up_loops\<close> below).
\<close>

definition assign_slice2 :: "nat \<Rightarrow> nat \<Rightarrow> nat \<Rightarrow> nat \<Rightarrow> matrix \<Rightarrow> matrix \<Rightarrow> error + matrix" where
  "assign_slice2 yo yScale xo xScale mat out =
     (let sl = slice2 yo yScale xo xScale out in
      if shape0 sl = shape0 mat \<and> shape1 sl = shape1 mat
      then Inr (map (\<lambda>p. if yo \<le> p \<and> (p - yo) mod yScale = 0
                          then set_strided xo xScale (mat ! ((p - yo) div yScale)) (out ! p)
                          else out ! p) [0..<length out])
      else Inl broadcast_error)"

text \<open>\<^verbatim>\<open>out += x\<close> for arrays of one shape.\<close>

definition iadd :: "matrix \<Rightarrow> matrix \<Rightarrow> error + matrix" where
  "iadd x out =
     (if shape0 out = shape0 x \<and> shape1 out = shape1 x
      then Inr (map2 (map2 (+)) out x)
      else Inl broadcast_error)"

text \<open>\<^verbatim>\<open>out / d\<close>\<close>

definition div_scalar :: "matrix \<Rightarrow> real \<Rightarrow> matrix" where
  "div_scalar out d = map (map (\<lambda>v. v / d)) out"

text \<open>\<^verbatim>\<open>np.concatenate((mat, np.zeros((yPad, mat.shape[1]))), 0)\<close>: rows below.\<close>

definition pad_rows :: "nat \<Rightarrow> matrix \<Rightarrow> matrix" where
  "pad_rows yPad mat = mat @ np_zeros yPad (shape1 mat)"

text \<open>\<^verbatim>\<open>np.concatenate((mat, np.zeros((mat.shape[0], xPad))), 1)\<close>: columns to the right.\<close>

definition pad_cols :: "nat \<Rightarrow> matrix \<Rightarrow> matrix" where
  "pad_cols xPad mat = map2 (@) mat (np_zeros (shape0 mat) xPad)"

text \<open>
  In-place product of the cells that an index expression selects. The three index
  expressions of the source select, in an array of shape \<open>(r, c)\<close>:
  \<^item> \<^verbatim>\<open>out[:-1,-1]\<close>: the rows before the last one, in the last column;
  \<^item> \<^verbatim>\<open>out[-1,:-1]\<close>: the last row, in the columns before the last one;
  \<^item> \<^verbatim>\<open>out[-1,-1]\<close>: the last cell of the last row.
  The index \<^verbatim>\<open>-1\<close> on an axis of size 0 raises IndexError.
\<close>

definition imul_cells :: "(nat \<Rightarrow> nat \<Rightarrow> bool) \<Rightarrow> real \<Rightarrow> matrix \<Rightarrow> matrix" where
  "imul_cells sel f out =
     map (\<lambda>i. map (\<lambda>j. if sel i j then out ! i ! j * f else out ! i ! j)
                 [0..<length (out ! i)]) [0..<length out]"

definition index_error :: "nat \<Rightarrow> error" where
  "index_error axis =
     IndexError (''index -1 is out of bounds for axis '' @ (if axis = 0 then ''0'' else ''1'')
                 @ '' with size 0'')"

definition imul_right_edge :: "real \<Rightarrow> matrix \<Rightarrow> error + matrix" where
  "imul_right_edge f out =
     (if shape1 out = 0 then Inl (index_error 1)
      else Inr (imul_cells (\<lambda>i j. i < shape0 out - 1 \<and> j = shape1 out - 1) f out))"

definition imul_bottom_edge :: "real \<Rightarrow> matrix \<Rightarrow> error + matrix" where
  "imul_bottom_edge f out =
     (if shape0 out = 0 then Inl (index_error 0)
      else Inr (imul_cells (\<lambda>i j. i = shape0 out - 1 \<and> j < shape1 out - 1) f out))"

definition imul_corner :: "real \<Rightarrow> matrix \<Rightarrow> error + matrix" where
  "imul_corner f out =
     (if shape0 out = 0 then Inl (index_error 0)
      else if shape1 out = 0 then Inl (index_error 1)
      else Inr (imul_cells (\<lambda>i j. i = shape0 out - 1 \<and> j = shape1 out - 1) f out))"

text \<open>The cell \<^verbatim>\<open>out[-1,-1]\<close> of an array with at least one row and one column.\<close>

definition corner :: "matrix \<Rightarrow> real" where
  "corner out = out ! (shape0 out - 1) ! (shape1 out - 1)"

subsection \<open>Control flow\<close>

text \<open>Sequencing of two steps, the first of which may raise.\<close>

definition bind :: "'e + 'a \<Rightarrow> ('a \<Rightarrow> 'e + 'b) \<Rightarrow> 'e + 'b" where
  "bind r k = (case r of Inl e \<Rightarrow> Inl e | Inr v \<Rightarrow> k v)"

text \<open>\<^verbatim>\<open>for i in range(n): out = body(i, out)\<close>, leaving at the first exception.\<close>

fun for_each :: "nat list \<Rightarrow> (nat \<Rightarrow> 's \<Rightarrow> 'e + 's) \<Rightarrow> 's \<Rightarrow> 'e + 's" where
  "for_each [] body s = Inr s"
| "for_each (i # rest) body s = bind (body i s) (for_each rest body)"

definition for_range :: "nat \<Rightarrow> (nat \<Rightarrow> 's \<Rightarrow> 'e + 's) \<Rightarrow> 's \<Rightarrow> 'e + 's" where
  "for_range n body s = for_each [0..<n] body s"

subsection \<open>The scale argument\<close>

text \<open>
  A component of the scale is an int or an object of another type. The scale is
  either a sequence of two components, or one object that is not such a sequence
  (which the \<^verbatim>\<open>except\<close> branch of the unpacking uses for both axes).
\<close>

datatype pyval = PyInt int | PyOther

datatype scale_arg = Single pyval | Pair pyval pyval

fun unpack_scale :: "scale_arg \<Rightarrow> error + (int \<times> int)" where
  "unpack_scale (Pair (PyInt yScale) (PyInt xScale)) = Inr (yScale, xScale)"
| "unpack_scale (Single (PyInt s)) = Inr (s, s)"
| "unpack_scale _ = Inl (ValueError ''scale must be integer types'')"

subsection \<open>scaleMatrix\<close>

text \<open>The scale-up branch (lines 175 to 178), with positive factors.\<close>

definition scale_up_loops :: "matrix \<Rightarrow> nat \<Rightarrow> nat \<Rightarrow> matrix \<Rightarrow> error + matrix" where
  "scale_up_loops mat yScale xScale out =
     for_range yScale (\<lambda>yo.
       for_range xScale (\<lambda>xo. assign_slice2 yo yScale xo xScale mat)) out"

definition scale_up :: "matrix \<Rightarrow> nat \<Rightarrow> nat \<Rightarrow> error + matrix" where
  "scale_up mat yScale xScale =
     scale_up_loops mat yScale xScale
       (np_zeros (shape0 mat * yScale) (shape1 mat * xScale))"

text \<open>
  The scale-down branch after the padding (lines 200 to 209): the sum of the strided
  slices, the division, and the correction of the edges.
\<close>

definition scale_down_loops :: "matrix \<Rightarrow> nat \<Rightarrow> nat \<Rightarrow> matrix \<Rightarrow> error + matrix" where
  "scale_down_loops mat yScale xScale out =
     for_range yScale (\<lambda>yo.
       for_range xScale (\<lambda>xo. iadd (slice2 yo yScale xo xScale mat))) out"

definition block_average :: "matrix \<Rightarrow> nat \<Rightarrow> nat \<Rightarrow> error + matrix" where
  "block_average mat yScale xScale =
     bind (scale_down_loops mat yScale xScale
             (np_zeros (shape0 mat div yScale) (shape1 mat div xScale)))
       (\<lambda>out. Inr (div_scalar out (real (xScale * yScale))))"

definition correct_edges :: "nat \<Rightarrow> nat \<Rightarrow> nat \<Rightarrow> nat \<Rightarrow> matrix \<Rightarrow> error + matrix" where
  "correct_edges yScale xScale yPad xPad out =
     bind (if yPad > 0 then imul_right_edge (real yScale / real (yScale - yPad)) out
           else Inr out) (\<lambda>out.
     bind (if xPad > 0 then imul_bottom_edge (real xScale / real (xScale - xPad)) out
           else Inr out) (\<lambda>out.
     if yPad > 0
     then imul_corner (real (yScale * xScale) / real (yScale - yPad) / real (xScale - xPad)) out
     else Inr out))"

definition nondivisible_error :: error where
  "nondivisible_error =
     GToolsError ''Matrix can only be scaled down by a factor of it's dimensions''"

definition direction_error :: error where
  "direction_error = GToolsError ''Dimensions must be scaled in the same direction''"

text \<open>The amounts to pad in the y and in the x direction (lines 190 to 194).\<close>

definition pad_amounts :: "matrix \<Rightarrow> nat \<Rightarrow> nat \<Rightarrow> nat \<times> nat" where
  "pad_amounts mat yScale xScale =
     (let yPad = yScale - shape0 mat mod yScale;
          xPad = xScale - shape1 mat mod xScale;
          yPad = (if yPad = yScale then 0 else yPad);
          xPad = (if xPad = xScale then 0 else xPad)
      in (yPad, xPad))"

text \<open>The padding (lines 197 and 198): rows first, then columns on the new row count.\<close>

definition pad_matrix :: "nat \<Rightarrow> nat \<Rightarrow> matrix \<Rightarrow> matrix" where
  "pad_matrix yPad xPad mat =
     (let mat = (if yPad > 0 then pad_rows yPad mat else mat);
          mat = (if xPad > 0 then pad_cols xPad mat else mat)
      in mat)"

text \<open>The scale-down branch (lines 181 to 209); the factors are already positive.\<close>

definition scale_down :: "matrix \<Rightarrow> nat \<Rightarrow> nat \<Rightarrow> bool \<Rightarrow> error + matrix" where
  "scale_down mat yScale xScale strict =
     (if strict then
        if \<not> (shape0 mat mod yScale = 0 \<and> shape1 mat mod xScale = 0)
        then Inl nondivisible_error
        else bind (block_average mat yScale xScale) (correct_edges yScale xScale 0 0)
      else
        let (yPad, xPad) = pad_amounts mat yScale xScale;
            mat = pad_matrix yPad xPad mat
        in bind (block_average mat yScale xScale) (correct_edges yScale xScale yPad xPad))"

definition scaleMatrix :: "matrix \<Rightarrow> scale_arg \<Rightarrow> bool \<Rightarrow> error + matrix" where
  "scaleMatrix mat scale strict =
     bind (unpack_scale scale) (\<lambda>(yScale, xScale).
       if xScale = 0 \<and> yScale = 0 then Inr mat
       else if xScale > 0 \<and> yScale > 0 then scale_up mat (nat yScale) (nat xScale)
       else if xScale < 0 \<and> yScale < 0
            then scale_down mat (nat (- 1 * yScale)) (nat (- 1 * xScale)) strict
       else Inl direction_error)"

subsection \<open>Objects: which array a call reads, writes and returns\<close>

text \<open>
  A Python variable holds a reference to an array object, and the in-place statements
  of \<^verbatim>\<open>scaleMatrix\<close> (\<^verbatim>\<open>out[...] = mat\<close>, \<^verbatim>\<open>out += ...\<close>, \<^verbatim>\<open>out[...] *= f\<close>) write into
  the object that \<^verbatim>\<open>out\<close> refers to. The heap is the list of the array objects
  allocated so far and a reference is a position in it. \<^verbatim>\<open>np.zeros\<close>,
  \<^verbatim>\<open>np.concatenate\<close> and \<^verbatim>\<open>out / d\<close> allocate a new object; an assignment to a
  variable rebinds it. Temporary arrays that no variable keeps (the strided views, the
  zeros that are concatenated) are values. A call returns a reference and the heap it
  leaves; a raised exception comes with the heap at that moment.
\<close>

type_synonym ref = nat

type_synonym heap = "matrix list"

definition alloc :: "matrix \<Rightarrow> heap \<Rightarrow> ref \<times> heap" where
  "alloc v h = (length h, h @ [v])"

text \<open>An in-place statement on the object at \<open>r\<close>.\<close>

definition update_at :: "ref \<Rightarrow> (matrix \<Rightarrow> error + matrix) \<Rightarrow> heap \<Rightarrow> (error \<times> heap) + heap" where
  "update_at r f h = (case f (h ! r) of Inl e \<Rightarrow> Inl (e, h) | Inr v \<Rightarrow> Inr (h[r := v]))"

definition scale_up_obj :: "heap \<Rightarrow> ref \<Rightarrow> nat \<Rightarrow> nat \<Rightarrow> (error \<times> heap) + (ref \<times> heap)" where
  "scale_up_obj h mat yScale xScale =
     (let (out, h) = alloc (np_zeros (shape0 (h ! mat) * yScale) (shape1 (h ! mat) * xScale)) h
      in bind (for_range yScale (\<lambda>yo.
                 for_range xScale (\<lambda>xo h.
                   update_at out (assign_slice2 yo yScale xo xScale (h ! mat)) h)) h)
           (\<lambda>h. Inr (out, h)))"

definition block_average_obj :: "heap \<Rightarrow> ref \<Rightarrow> nat \<Rightarrow> nat \<Rightarrow> (error \<times> heap) + (ref \<times> heap)" where
  "block_average_obj h mat yScale xScale =
     (let (out, h) = alloc (np_zeros (shape0 (h ! mat) div yScale) (shape1 (h ! mat) div xScale)) h
      in bind (for_range yScale (\<lambda>yo.
                 for_range xScale (\<lambda>xo h.
                   update_at out (iadd (slice2 yo yScale xo xScale (h ! mat))) h)) h)
           (\<lambda>h. Inr (alloc (div_scalar (h ! out) (real (xScale * yScale))) h)))"

definition correct_edges_obj :: "nat \<Rightarrow> nat \<Rightarrow> nat \<Rightarrow> nat \<Rightarrow> ref \<Rightarrow> heap \<Rightarrow> (error \<times> heap) + heap" where
  "correct_edges_obj yScale xScale yPad xPad out h =
     bind (if yPad > 0 then update_at out (imul_right_edge (real yScale / real (yScale - yPad))) h
           else Inr h) (\<lambda>h.
     bind (if xPad > 0 then update_at out (imul_bottom_edge (real xScale / real (xScale - xPad))) h
           else Inr h) (\<lambda>h.
     if yPad > 0
     then update_at out
            (imul_corner (real (yScale * xScale) / real (yScale - yPad) / real (xScale - xPad))) h
     else Inr h))"

definition pad_matrix_obj :: "nat \<Rightarrow> nat \<Rightarrow> ref \<Rightarrow> heap \<Rightarrow> ref \<times> heap" where
  "pad_matrix_obj yPad xPad mat h =
     (let (mat, h) = (if yPad > 0 then alloc (pad_rows yPad (h ! mat)) h else (mat, h));
          (mat, h) = (if xPad > 0 then alloc (pad_cols xPad (h ! mat)) h else (mat, h))
      in (mat, h))"

definition average_and_correct_obj ::
    "nat \<Rightarrow> nat \<Rightarrow> nat \<Rightarrow> nat \<Rightarrow> ref \<Rightarrow> heap \<Rightarrow> (error \<times> heap) + (ref \<times> heap)" where
  "average_and_correct_obj yScale xScale yPad xPad mat h =
     bind (block_average_obj h mat yScale xScale) (\<lambda>(out, h).
     bind (correct_edges_obj yScale xScale yPad xPad out h) (\<lambda>h. Inr (out, h)))"

definition scale_down_obj :: "heap \<Rightarrow> ref \<Rightarrow> nat \<Rightarrow> nat \<Rightarrow> bool \<Rightarrow> (error \<times> heap) + (ref \<times> heap)" where
  "scale_down_obj h mat yScale xScale strict =
     (if strict then
        if \<not> (shape0 (h ! mat) mod yScale = 0 \<and> shape1 (h ! mat) mod xScale = 0)
        then Inl (nondivisible_error, h)
        else average_and_correct_obj yScale xScale 0 0 mat h
      else
        let (yPad, xPad) = pad_amounts (h ! mat) yScale xScale;
            (mat, h) = pad_matrix_obj yPad xPad mat h
        in average_and_correct_obj yScale xScale yPad xPad mat h)"

text \<open>
  \<^verbatim>\<open>scaleMatrix\<close> on references. The first branch returns the reference it was given
  (\<^verbatim>\<open>return mat\<close>).
\<close>

definition scaleMatrix_obj :: "heap \<Rightarrow> ref \<Rightarrow> scale_arg \<Rightarrow> bool \<Rightarrow> (error \<times> heap) + (ref \<times> heap)" where
  "scaleMatrix_obj h mat scale strict =
     (case unpack_scale scale of
        Inl e \<Rightarrow> Inl (e, h)
      | Inr (yScale, xScale) \<Rightarrow>
          if xScale = 0 \<and> yScale = 0 then Inr (mat, h)
          else if xScale > 0 \<and> yScale > 0 then scale_up_obj h mat (nat yScale) (nat xScale)
          else if xScale < 0 \<and> yScale < 0
               then scale_down_obj h mat (nat (- 1 * yScale)) (nat (- 1 * xScale)) strict
          else Inl (direction_error, h))"

text \<open>
  How a computation on references relates to the computation on values: an in-place
  statement on \<open>out\<close> changes the object at \<open>out\<close> and nothing else, and a call leaves
  the objects that existed before it as they were.
\<close>

definition sim_update :: "heap \<Rightarrow> ref \<Rightarrow> error + matrix \<Rightarrow> (error \<times> heap) + heap \<Rightarrow> bool" where
  "sim_update h out r R =
     (case r of
        Inl e \<Rightarrow> (\<exists>v. R = Inl (e, h[out := v]))
      | Inr v \<Rightarrow> R = Inr (h[out := v]))"

definition obj_result :: "heap \<Rightarrow> error + matrix \<Rightarrow> (error \<times> heap) + (ref \<times> heap) \<Rightarrow> bool" where
  "obj_result h r R =
     (case r of
        Inl e \<Rightarrow> (\<exists>h'. R = Inl (e, h') \<and> take (length h) h' = h)
      | Inr v \<Rightarrow> (\<exists>out h'. R = Inr (out, h') \<and> length h \<le> out \<and> out < length h'
                     \<and> h' ! out = v \<and> take (length h) h' = h))"

subsection \<open>Closed forms\<close>

text \<open>The array of shape \<open>(r, c)\<close> whose cell \<open>(i, j)\<close> is \<open>f i j\<close>.\<close>

definition tabulate2 :: "nat \<Rightarrow> nat \<Rightarrow> (nat \<Rightarrow> nat \<Rightarrow> real) \<Rightarrow> matrix" where
  "tabulate2 r c f = map (\<lambda>i. map (f i) [0..<c]) [0..<r]"

section \<open>Properties of the building blocks\<close>

subsection \<open>Sequencing and loops\<close>

lemma bind_Inr [simp]: "bind (Inr v) k = k v"
  by (simp add: bind_def)

lemma bind_Inl [simp]: "bind (Inl e) k = Inl e"
  by (simp add: bind_def)

lemma for_each_append: "for_each (xs @ ys) body s = bind (for_each xs body s) (for_each ys body)"
  by (induction xs arbitrary: s) (auto simp: bind_def split: sum.splits)

lemma for_range_0 [simp]: "for_range 0 body s = Inr s"
  by (simp add: for_range_def)

lemma for_range_Suc: "for_range (Suc n) body s = bind (for_range n body s) (body n)"
  by (simp add: for_range_def for_each_append bind_def split: sum.splits)

subsection \<open>Arrays given by their cells\<close>

lemma length_tabulate2 [simp]: "length (tabulate2 r c f) = r"
  by (simp add: tabulate2_def)

lemma shape0_tabulate2 [simp]: "shape0 (tabulate2 r c f) = r"
  by (simp add: shape0_def)

lemma shape1_tabulate2: "shape1 (tabulate2 r c f) = (if r = 0 then 0 else c)"
  by (cases r) (simp_all add: shape1_def tabulate2_def upt_conv_Cons del: upt_Suc)

lemma nth_tabulate2_row: "i < r \<Longrightarrow> tabulate2 r c f ! i = map (f i) [0..<c]"
  by (simp add: tabulate2_def)

lemma nth_tabulate2: "i < r \<Longrightarrow> j < c \<Longrightarrow> tabulate2 r c f ! i ! j = f i j"
  by (simp add: tabulate2_def)

lemma tabulate2_cong: "(\<And>i j. i < r \<Longrightarrow> j < c \<Longrightarrow> f i j = g i j) \<Longrightarrow> tabulate2 r c f = tabulate2 r c g"
  by (simp add: tabulate2_def)

lemma is_matrix_tabulate2 [simp]: "is_matrix (tabulate2 r c f)"
  by (cases "r = 0") (auto simp: is_matrix_def list_all_iff shape1_tabulate2, auto simp: tabulate2_def)

lemma is_matrix_row: "is_matrix m \<Longrightarrow> i < length m \<Longrightarrow> length (m ! i) = shape1 m"
  by (simp add: is_matrix_def list_all_length)

lemma matrix_as_tabulate2:
  assumes "is_matrix m"
  shows "m = tabulate2 (shape0 m) (shape1 m) (\<lambda>i j. m ! i ! j)"
proof (rule nth_equalityI)
  show "length m = length (tabulate2 (shape0 m) (shape1 m) (\<lambda>i j. m ! i ! j))"
    by (simp add: shape0_def)
next
  fix i assume i: "i < length m"
  have "m ! i = map ((!) (m ! i)) [0..<shape1 m]"
    using is_matrix_row [OF assms i] by (metis map_nth)
  then show "m ! i = tabulate2 (shape0 m) (shape1 m) (\<lambda>i j. m ! i ! j) ! i"
    using i by (simp add: nth_tabulate2_row shape0_def)
qed

lemma np_zeros_tabulate2: "np_zeros r c = tabulate2 r c (\<lambda>i j. 0)"
  by (simp add: np_zeros_def tabulate2_def map_replicate_const)


subsection \<open>The scale-down loops\<close>

lemma strided_count:
  fixes n step start :: nat
  assumes "0 < step" "start < step"
  shows "(n * step - start + (step - 1)) div step = n"
proof (cases "n = 0")
  case True
  then show ?thesis using assms by simp
next
  case False
  define d where "d = step - 1 - start"
  have "step \<le> n * step" using False by simp
  then have "n * step - start + (step - 1) = d + n * step"
    using assms unfolding d_def by linarith
  moreover have "d < step" using assms by (simp add: d_def)
  then have "(d + n * step) div step = n" by simp
  ultimately show ?thesis by simp
qed

lemma strided_eq:
  assumes "0 < step" "start < step" "length xs = n * step"
  shows "strided start step xs = map (\<lambda>k. xs ! (start + k * step)) [0..<n]"
  unfolding strided_def assms(3) strided_count [OF assms(1,2)] ..

lemma index_in_block:
  assumes "start < step" "k < n"
  shows "start + k * step < n * (step::nat)"
proof -
  have "start + k * step < Suc k * step" using assms by simp
  also have "\<dots> \<le> n * step" using assms by (intro mult_le_mono1) simp
  finally show ?thesis .
qed

lemma slice2_tabulate2:
  assumes "0 < ys" "0 < xs" "yo < ys" "xo < xs"
  shows "slice2 yo ys xo xs (tabulate2 (r * ys) (c * xs) f)
         = tabulate2 r c (\<lambda>i j. f (yo + i * ys) (xo + j * xs))"
proof -
  have "strided yo ys (tabulate2 (r * ys) (c * xs) f)
        = map (\<lambda>i. map (f (yo + i * ys)) [0..<c * xs]) [0..<r]"
    using assms by (simp add: strided_eq [where n = r] nth_tabulate2_row index_in_block)
  moreover have "strided xo xs (map (f p) [0..<c * xs]) = map (\<lambda>j. f p (xo + j * xs)) [0..<c]" for p
    using assms by (simp add: strided_eq [where n = c] index_in_block)
  ultimately show ?thesis
    by (simp add: slice2_def tabulate2_def)
qed

lemma iadd_tabulate2:
  "iadd (tabulate2 r c g) (tabulate2 r c f) = Inr (tabulate2 r c (\<lambda>i j. f i j + g i j))"
proof -
  have "map2 (map2 (+)) (tabulate2 r c f) (tabulate2 r c g) = tabulate2 r c (\<lambda>i j. f i j + g i j)"
    by (rule nth_equalityI) (simp_all add: nth_tabulate2_row, rule nth_equalityI, simp_all)
  then show ?thesis
    by (simp add: iadd_def shape1_tabulate2)
qed

lemma div_scalar_tabulate2:
  "div_scalar (tabulate2 r c f) d = tabulate2 r c (\<lambda>i j. f i j / d)"
  by (simp add: div_scalar_def tabulate2_def)

lemma down_inner_loop:
  assumes "0 < ys" "0 < xs" "yo < ys" "b \<le> xs"
  shows "for_range b (\<lambda>xo. iadd (slice2 yo ys xo xs (tabulate2 (r * ys) (c * xs) m)))
           (tabulate2 r c f)
         = Inr (tabulate2 r c (\<lambda>i j. f i j + (\<Sum>xo<b. m (yo + i * ys) (xo + j * xs))))"
  using assms(4)
proof (induction b)
  case 0
  show ?case by simp
next
  case (Suc b)
  then have b: "b < xs" by simp
  show ?case
    using Suc b assms(1-3)
    by (simp add: for_range_Suc slice2_tabulate2 iadd_tabulate2 add.assoc)
qed

lemma down_outer_loop:
  assumes "0 < ys" "0 < xs" "a \<le> ys"
  shows "for_range a (\<lambda>yo. for_range xs (\<lambda>xo.
             iadd (slice2 yo ys xo xs (tabulate2 (r * ys) (c * xs) m))))
           (tabulate2 r c f)
         = Inr (tabulate2 r c
             (\<lambda>i j. f i j + (\<Sum>yo<a. \<Sum>xo<xs. m (yo + i * ys) (xo + j * xs))))"
  using assms(3)
proof (induction a)
  case 0
  show ?case by simp
next
  case (Suc a)
  then have a: "a < ys" by simp
  show ?case
    using Suc a assms(1,2)
    by (simp add: for_range_Suc down_inner_loop add.assoc)
qed

lemma block_average_matrix:
  assumes "is_matrix mat" "0 < ys" "0 < xs" "shape0 mat = r * ys" "shape1 mat = c * xs"
  shows "block_average mat ys xs
         = Inr (tabulate2 r c
             (\<lambda>i j. (\<Sum>yo<ys. \<Sum>xo<xs. mat ! (yo + i * ys) ! (xo + j * xs)) / real (xs * ys)))"
proof -
  have m: "mat = tabulate2 (r * ys) (c * xs) (\<lambda>i j. mat ! i ! j)"
    using matrix_as_tabulate2 [OF assms(1)] assms(4,5) by simp
  have "scale_down_loops mat ys xs (np_zeros r c)
        = Inr (tabulate2 r c (\<lambda>i j. 0 + (\<Sum>yo<ys. \<Sum>xo<xs. mat ! (yo + i * ys) ! (xo + j * xs))))"
    unfolding scale_down_loops_def np_zeros_tabulate2
    by (subst m) (rule down_outer_loop [OF assms(2,3) order_refl])
  then show ?thesis
    using assms(2-5) by (simp add: block_average_def div_scalar_tabulate2)
qed

subsection \<open>The correction of the edges\<close>

lemma imul_cells_tabulate2:
  "imul_cells sel f (tabulate2 r c g)
   = tabulate2 r c (\<lambda>i j. if sel i j then g i j * f else g i j)"
  by (simp add: imul_cells_def tabulate2_def)

lemma correct_edges_none [simp]: "correct_edges ys xs 0 0 out = Inr out"
  by (simp add: correct_edges_def)

lemma correct_edges_tabulate2:
  assumes "0 < r" "0 < c"
  shows "correct_edges ys xs yPad xPad (tabulate2 r c g)
     = Inr (tabulate2 r c (\<lambda>i j.
         if i < r - 1 \<and> j = c - 1 then
           (if 0 < yPad then g i j * (real ys / real (ys - yPad)) else g i j)
         else if i = r - 1 \<and> j < c - 1 then
           (if 0 < xPad then g i j * (real xs / real (xs - xPad)) else g i j)
         else if i = r - 1 \<and> j = c - 1 then
           (if 0 < yPad then g i j * (real (ys * xs) / real (ys - yPad) / real (xs - xPad))
            else g i j)
         else g i j))"
  using assms
  by (auto simp: correct_edges_def imul_right_edge_def imul_bottom_edge_def imul_corner_def
        imul_cells_tabulate2 shape1_tabulate2 intro!: tabulate2_cong)


subsection \<open>The padding\<close>

lemma row_as_map:
  "is_matrix m \<Longrightarrow> i < length m \<Longrightarrow> m ! i = map ((!) (m ! i)) [0..<shape1 m]"
  using is_matrix_row [of m i] by (metis map_nth)

lemma pad_rows_tabulate2:
  assumes "is_matrix mat"
  shows "pad_rows yPad mat
         = tabulate2 (shape0 mat + yPad) (shape1 mat)
             (\<lambda>i j. if i < shape0 mat then mat ! i ! j else 0)"
proof (rule nth_equalityI)
  show "length (pad_rows yPad mat) = length (tabulate2 (shape0 mat + yPad) (shape1 mat)
             (\<lambda>i j. if i < shape0 mat then mat ! i ! j else 0))"
    by (simp add: pad_rows_def np_zeros_def shape0_def)
next
  fix i assume "i < length (pad_rows yPad mat)"
  then have i: "i < shape0 mat + yPad"
    by (simp add: pad_rows_def np_zeros_def shape0_def)
  show "pad_rows yPad mat ! i = tabulate2 (shape0 mat + yPad) (shape1 mat)
             (\<lambda>i j. if i < shape0 mat then mat ! i ! j else 0) ! i"
  proof (cases "i < shape0 mat")
    case True
    then show ?thesis
      using i row_as_map [OF assms, of i]
      by (simp add: pad_rows_def nth_append nth_tabulate2_row shape0_def)
  next
    case False
    then show ?thesis
      using i
      by (simp add: pad_rows_def np_zeros_def nth_append nth_tabulate2_row shape0_def
          map_replicate_const)
  qed
qed

lemma pad_cols_tabulate2:
  "pad_cols xPad (tabulate2 r c g)
   = tabulate2 r (c + xPad) (\<lambda>i j. if j < c then g i j else 0)"
proof (rule nth_equalityI)
  show "length (pad_cols xPad (tabulate2 r c g))
        = length (tabulate2 r (c + xPad) (\<lambda>i j. if j < c then g i j else 0))"
    by (simp add: pad_cols_def np_zeros_def)
next
  fix i assume "i < length (pad_cols xPad (tabulate2 r c g))"
  then have i: "i < r" by (simp add: pad_cols_def np_zeros_def)
  have "map (g i) [0..<c] @ replicate xPad 0
        = map (\<lambda>j. if j < c then g i j else 0) [0..<c + xPad]"
    by (rule nth_equalityI) (simp_all add: nth_append)
  then show "pad_cols xPad (tabulate2 r c g) ! i
        = tabulate2 r (c + xPad) (\<lambda>i j. if j < c then g i j else 0) ! i"
    using i by (simp add: pad_cols_def np_zeros_def nth_tabulate2_row)
qed

lemma pad_matrix_tabulate2:
  assumes "is_matrix mat"
  shows "pad_matrix yPad xPad mat
         = tabulate2 (shape0 mat + yPad) (shape1 mat + xPad)
             (\<lambda>i j. if i < shape0 mat \<and> j < shape1 mat then mat ! i ! j else 0)"
proof -
  have m: "mat = tabulate2 (shape0 mat + 0) (shape1 mat)
                   (\<lambda>i j. if i < shape0 mat then mat ! i ! j else 0)"
  proof -
    have "tabulate2 (shape0 mat) (shape1 mat) (\<lambda>i j. mat ! i ! j)
          = tabulate2 (shape0 mat) (shape1 mat)
              (\<lambda>i j. if i < shape0 mat then mat ! i ! j else 0)"
      by (rule tabulate2_cong) simp
    then show ?thesis using matrix_as_tabulate2 [OF assms] by simp
  qed
  have rows: "(if 0 < yPad then pad_rows yPad mat else mat)
        = tabulate2 (shape0 mat + yPad) (shape1 mat)
            (\<lambda>i j. if i < shape0 mat then mat ! i ! j else 0)"
    using m pad_rows_tabulate2 [OF assms, of yPad] by (cases "0 < yPad") simp_all
  have cols: "(if 0 < xPad then pad_cols xPad (tabulate2 r c g) else tabulate2 r c g)
        = tabulate2 r (c + xPad) (\<lambda>i j. if j < c then g i j else 0)" for r c g
    by (cases "0 < xPad") (auto simp: pad_cols_tabulate2 intro!: tabulate2_cong)
  show ?thesis
    unfolding pad_matrix_def Let_def rows cols
    by (rule tabulate2_cong) simp
qed

subsection \<open>The scale-up loops\<close>

lemma stride_member:
  fixes p start step :: nat
  assumes "start < step"
  shows "(start \<le> p \<and> (p - start) mod step = 0) = (p mod step = start)"
proof
  assume a: "start \<le> p \<and> (p - start) mod step = 0"
  then have "p = (p - start) + start" by simp
  then have "p mod step = ((p - start) mod step + start) mod step"
    by (metis mod_add_left_eq)
  then show "p mod step = start" using a assms by simp
next
  assume a: "p mod step = start"
  then have p: "p = step * (p div step) + start" by (metis mult_div_mod_eq)
  then have "p - start = step * (p div step)" by simp
  then show "start \<le> p \<and> (p - start) mod step = 0"
    using p by (metis le_add2 mod_mult_self1_is_0)
qed

lemma stride_index:
  fixes p step :: nat
  shows "(p - p mod step) div step = p div step"
  by (simp add: minus_mod_eq_mult_div)

lemma set_strided_map:
  assumes "xo < xs"
  shows "set_strided xo xs vs (map g [0..<n])
         = map (\<lambda>q. if q mod xs = xo then vs ! (q div xs) else g q) [0..<n]"
  unfolding set_strided_def
  by (rule nth_equalityI) (auto simp: stride_member [OF assms] stride_index)

lemma shape1_empty: "shape0 m = 0 \<Longrightarrow> shape1 m = 0"
  by (simp add: shape0_def shape1_def)

lemma assign_slice2_tabulate2:
  assumes "0 < ys" "0 < xs" "yo < ys" "xo < xs"
  shows "assign_slice2 yo ys xo xs mat (tabulate2 (shape0 mat * ys) (shape1 mat * xs) f)
         = Inr (tabulate2 (shape0 mat * ys) (shape1 mat * xs)
             (\<lambda>p q. if p mod ys = yo \<and> q mod xs = xo then mat ! (p div ys) ! (q div xs)
                    else f p q))"
proof -
  have "map (\<lambda>p. if yo \<le> p \<and> (p - yo) mod ys = 0
               then set_strided xo xs (mat ! ((p - yo) div ys))
                      (tabulate2 (shape0 mat * ys) (shape1 mat * xs) f ! p)
               else tabulate2 (shape0 mat * ys) (shape1 mat * xs) f ! p)
          [0..<shape0 mat * ys]
        = tabulate2 (shape0 mat * ys) (shape1 mat * xs)
             (\<lambda>p q. if p mod ys = yo \<and> q mod xs = xo then mat ! (p div ys) ! (q div xs)
                    else f p q)"
    unfolding tabulate2_def
    by (rule nth_equalityI)
       (auto simp: stride_member [OF assms(3)] stride_index set_strided_map [OF assms(4)])
  then show ?thesis
    using assms
    by (simp add: assign_slice2_def slice2_tabulate2 shape1_tabulate2 shape1_empty)
qed


lemma up_inner_loop:
  assumes "0 < ys" "0 < xs" "yo < ys" "b \<le> xs"
  shows "for_range b (\<lambda>xo. assign_slice2 yo ys xo xs mat)
           (tabulate2 (shape0 mat * ys) (shape1 mat * xs) f)
         = Inr (tabulate2 (shape0 mat * ys) (shape1 mat * xs)
             (\<lambda>p q. if p mod ys = yo \<and> q mod xs < b then mat ! (p div ys) ! (q div xs)
                    else f p q))"
  using assms(4)
proof (induction b)
  case 0
  show ?case by simp
next
  case (Suc b)
  then have b: "b < xs" by simp
  have "for_range (Suc b) (\<lambda>xo. assign_slice2 yo ys xo xs mat)
           (tabulate2 (shape0 mat * ys) (shape1 mat * xs) f)
        = Inr (tabulate2 (shape0 mat * ys) (shape1 mat * xs)
            (\<lambda>p q. if p mod ys = yo \<and> q mod xs = b then mat ! (p div ys) ! (q div xs)
                   else if p mod ys = yo \<and> q mod xs < b then mat ! (p div ys) ! (q div xs)
                   else f p q))"
    using Suc b assms(1-3) by (simp add: for_range_Suc assign_slice2_tabulate2)
  also have "\<dots> = Inr (tabulate2 (shape0 mat * ys) (shape1 mat * xs)
             (\<lambda>p q. if p mod ys = yo \<and> q mod xs < Suc b then mat ! (p div ys) ! (q div xs)
                    else f p q))"
    by (auto intro!: tabulate2_cong simp: less_Suc_eq)
  finally show ?case .
qed

lemma up_outer_loop:
  assumes "0 < ys" "0 < xs" "a \<le> ys"
  shows "for_range a (\<lambda>yo. for_range xs (\<lambda>xo. assign_slice2 yo ys xo xs mat))
           (tabulate2 (shape0 mat * ys) (shape1 mat * xs) f)
         = Inr (tabulate2 (shape0 mat * ys) (shape1 mat * xs)
             (\<lambda>p q. if p mod ys < a then mat ! (p div ys) ! (q div xs) else f p q))"
  using assms(3)
proof (induction a)
  case 0
  show ?case by simp
next
  case (Suc a)
  then have a: "a < ys" by simp
  have "for_range (Suc a) (\<lambda>yo. for_range xs (\<lambda>xo. assign_slice2 yo ys xo xs mat))
           (tabulate2 (shape0 mat * ys) (shape1 mat * xs) f)
        = Inr (tabulate2 (shape0 mat * ys) (shape1 mat * xs)
            (\<lambda>p q. if p mod ys = a \<and> q mod xs < xs then mat ! (p div ys) ! (q div xs)
                   else if p mod ys < a then mat ! (p div ys) ! (q div xs)
                   else f p q))"
    using Suc a assms(1,2) by (simp add: for_range_Suc up_inner_loop)
  also have "\<dots> = Inr (tabulate2 (shape0 mat * ys) (shape1 mat * xs)
             (\<lambda>p q. if p mod ys < Suc a then mat ! (p div ys) ! (q div xs) else f p q))"
    using assms(2) by (auto intro!: tabulate2_cong simp: less_Suc_eq)
  finally show ?case .
qed

lemma scale_up_closed:
  assumes "0 < ys" "0 < xs"
  shows "scale_up mat ys xs
         = Inr (tabulate2 (shape0 mat * ys) (shape1 mat * xs)
                  (\<lambda>p q. mat ! (p div ys) ! (q div xs)))"
  using assms up_outer_loop [OF assms order_refl, of mat "\<lambda>p q. 0"]
  by (simp add: scale_up_def scale_up_loops_def np_zeros_tabulate2)

lemma scaleMatrix_up:
  "0 < y \<Longrightarrow> 0 < x \<Longrightarrow>
   scaleMatrix mat (Pair (PyInt y) (PyInt x)) strict = scale_up mat (nat y) (nat x)"
  by (simp add: scaleMatrix_def)

lemma scaleMatrix_down:
  "0 < ys \<Longrightarrow> 0 < xs \<Longrightarrow>
   scaleMatrix mat (Pair (PyInt (- int ys)) (PyInt (- int xs))) strict
   = scale_down mat ys xs strict"
  by (simp add: scaleMatrix_def)

subsection \<open>Scaling down without and with padding\<close>

lemma pad_amounts_divisible:
  "0 < ys \<Longrightarrow> 0 < xs \<Longrightarrow> shape0 mat mod ys = 0 \<Longrightarrow> shape1 mat mod xs = 0 \<Longrightarrow>
   pad_amounts mat ys xs = (0, 0)"
  by (simp add: pad_amounts_def)

lemma pad_matrix_none [simp]: "pad_matrix 0 0 mat = mat"
  by (simp add: pad_matrix_def)

lemma scale_down_exact:
  assumes "is_matrix mat" "0 < ys" "0 < xs" "shape0 mat mod ys = 0" "shape1 mat mod xs = 0"
  shows "scale_down mat ys xs strict
         = Inr (tabulate2 (shape0 mat div ys) (shape1 mat div xs)
             (\<lambda>i j. (\<Sum>yo<ys. \<Sum>xo<xs. mat ! (yo + i * ys) ! (xo + j * xs)) / real (xs * ys)))"
proof -
  have "block_average mat ys xs
         = Inr (tabulate2 (shape0 mat div ys) (shape1 mat div xs)
             (\<lambda>i j. (\<Sum>yo<ys. \<Sum>xo<xs. mat ! (yo + i * ys) ! (xo + j * xs)) / real (xs * ys)))"
    using assms by (intro block_average_matrix) (simp_all add: mod_eq_0_iff_dvd)
  then show ?thesis
    using assms by (simp add: scale_down_def pad_amounts_divisible)
qed

subsection \<open>Where an exception can come from\<close>

lemma for_each_error:
  "for_each is body s = Inl e \<Longrightarrow> \<exists>i s'. body i s' = Inl e"
  by (induction "is" arbitrary: s) (auto simp: bind_def split: sum.splits)

lemma for_range_error:
  "for_range n body s = Inl e \<Longrightarrow> \<exists>i s'. body i s' = Inl e"
  unfolding for_range_def by (rule for_each_error)

lemma scale_up_error: "scale_up mat ys xs = Inl e \<Longrightarrow> e = broadcast_error"
  unfolding scale_up_def scale_up_loops_def
  by (auto dest!: for_range_error simp: assign_slice2_def Let_def split: if_splits)

lemma block_average_error: "block_average mat ys xs = Inl e \<Longrightarrow> e = broadcast_error"
  unfolding block_average_def scale_down_loops_def
  by (auto dest!: for_range_error simp: bind_def iadd_def split: sum.splits if_splits)

lemma correct_edges_error:
  "correct_edges ys xs yPad xPad out = Inl e \<Longrightarrow> e = index_error 0 \<or> e = index_error 1"
  unfolding correct_edges_def
  by (auto simp: bind_def imul_right_edge_def imul_bottom_edge_def imul_corner_def
           split: sum.splits if_splits)

lemma nondivisible_error_distinct:
  "nondivisible_error \<noteq> broadcast_error"
  "nondivisible_error \<noteq> index_error k"
  "nondivisible_error \<noteq> direction_error"
  "nondivisible_error \<noteq> ValueError s"
  by (simp_all add: nondivisible_error_def broadcast_error_def index_error_def
      direction_error_def)

lemma scale_down_nondivisible:
  "scale_down mat ys xs strict = Inl nondivisible_error
   \<longleftrightarrow> strict \<and> \<not> (shape0 mat mod ys = 0 \<and> shape1 mat mod xs = 0)"
proof -
  have "bind (block_average m ys xs) (correct_edges ys xs yPad xPad) \<noteq> Inl nondivisible_error"
    for m yPad xPad
    using block_average_error [of m ys xs nondivisible_error]
          correct_edges_error [of ys xs yPad xPad _ nondivisible_error]
    by (auto simp: bind_def nondivisible_error_distinct split: sum.splits)
  then show ?thesis
    by (auto simp: scale_down_def Let_def split: prod.splits)
qed

subsection \<open>The padded grid and its corner\<close>

lemma pad_amounts_eq:
  "pad_amounts mat ys xs
   = (if shape0 mat mod ys = 0 then 0 else ys - shape0 mat mod ys,
      if shape1 mat mod xs = 0 then 0 else xs - shape1 mat mod xs)"
  by (auto simp: pad_amounts_def Let_def)

lemma padded_multiple:
  fixes n s :: nat
  assumes "0 < s"
  shows "n + (if n mod s = 0 then 0 else s - n mod s)
         = (n + (if n mod s = 0 then 0 else s - n mod s)) div s * s"
proof (cases "n mod s = 0")
  case True
  then show ?thesis by (simp add: mod_eq_0_iff_dvd)
next
  case False
  have "n mod s < s" using assms by simp
  moreover have "n = n div s * s + n mod s" by simp
  ultimately have "n + (s - n mod s) = n div s * s + s" by linarith
  also have "\<dots> = (n div s + 1) * s" by simp
  finally have "n + (s - n mod s) = (n div s + 1) * s" .
  then show ?thesis using False assms by simp
qed

lemma padded_positive:
  fixes n s :: nat
  assumes "0 < s" "0 < n"
  shows "0 < (n + (if n mod s = 0 then 0 else s - n mod s)) div s"
proof -
  have "0 < n + (if n mod s = 0 then 0 else s - n mod s)" using assms by simp
  with padded_multiple [OF assms(1), of n] show ?thesis
    by (metis mult_is_0 neq0_conv)
qed

lemma scale_down_lenient:
  assumes "is_matrix mat" "0 < ys" "0 < xs" "0 < shape1 mat"
    and pads: "pad_amounts mat ys xs = (yPad, xPad)"
  defines "r \<equiv> (shape0 mat + yPad) div ys" and "c \<equiv> (shape1 mat + xPad) div xs"
  shows "\<exists>g. block_average (pad_matrix yPad xPad mat) ys xs = Inr (tabulate2 r c g)
           \<and> scale_down mat ys xs False = correct_edges ys xs yPad xPad (tabulate2 r c g)
           \<and> 0 < r \<and> 0 < c"
proof -
  have rows: "0 < shape0 mat"
    using assms(4) shape1_empty [of mat] by auto
  have yPad: "yPad = (if shape0 mat mod ys = 0 then 0 else ys - shape0 mat mod ys)"
    and xPad: "xPad = (if shape1 mat mod xs = 0 then 0 else xs - shape1 mat mod xs)"
    using pads by (simp_all add: pad_amounts_eq)
  let ?p = "pad_matrix yPad xPad mat"
  have p: "?p = tabulate2 (shape0 mat + yPad) (shape1 mat + xPad)
             (\<lambda>i j. if i < shape0 mat \<and> j < shape1 mat then mat ! i ! j else 0)"
    by (rule pad_matrix_tabulate2 [OF assms(1)])
  have "is_matrix ?p" "shape0 ?p = r * ys" "shape1 ?p = c * xs"
    unfolding p r_def c_def
    using rows padded_multiple [OF assms(2), of "shape0 mat"]
          padded_multiple [OF assms(3), of "shape1 mat"]
    by (simp_all add: shape1_tabulate2 yPad xPad)
  from block_average_matrix [OF this(1) assms(2,3) this(2,3)]
  obtain g where g: "block_average ?p ys xs = Inr (tabulate2 r c g)" by blast
  moreover have "scale_down mat ys xs False = correct_edges ys xs yPad xPad (tabulate2 r c g)"
    using g pads by (simp add: scale_down_def)
  moreover have "0 < r" "0 < c"
    unfolding r_def c_def yPad xPad
    using padded_positive [OF assms(2) rows] padded_positive [OF assms(3,4)] by simp_all
  ultimately show ?thesis by blast
qed

lemma corner_tabulate2:
  "0 < r \<Longrightarrow> 0 < c \<Longrightarrow> corner (tabulate2 r c g) = g (r - 1) (c - 1)"
  by (simp add: corner_def shape1_tabulate2 nth_tabulate2)

subsection \<open>Computations on references and on values\<close>

lemma update_at_sim:
  assumes "out < length h"
  shows "sim_update h out (f v) (update_at out f (h[out := v]))"
  using assms by (simp add: sim_update_def update_at_def split: sum.splits) blast

lemma for_each_sim:
  assumes "\<And>i v. sim_update h out (b i v) (B i (h[out := v]))"
  shows "sim_update h out (for_each is b v) (for_each is B (h[out := v]))"
proof (induction "is" arbitrary: v)
  case Nil
  show ?case by (simp add: sim_update_def)
next
  case (Cons i rest)
  show ?case
  proof (cases "b i v")
    case (Inl e)
    with assms [of i v] show ?thesis
      by (auto simp: sim_update_def)
  next
    case (Inr v')
    with assms [of i v] have "B i (h[out := v]) = Inr (h[out := v'])"
      by (simp add: sim_update_def)
    with Inr Cons.IH [of v'] show ?thesis by simp
  qed
qed

lemma for_range_sim:
  assumes "\<And>i v. sim_update h out (b i v) (B i (h[out := v]))"
  shows "sim_update h out (for_range n b v) (for_range n B (h[out := v]))"
  unfolding for_range_def using assms by (rule for_each_sim)

lemma nested_loops_sim:
  assumes "out < length h" "mat \<noteq> out"
  shows "sim_update h out
           (for_range n (\<lambda>yo. for_range m (\<lambda>xo. f yo xo (h ! mat))) v)
           (for_range n (\<lambda>yo. for_range m (\<lambda>xo h'. update_at out (f yo xo (h' ! mat)) h'))
              (h[out := v]))"
proof (rule for_range_sim, rule for_range_sim)
  fix yo xo w
  have "h[out := w] ! mat = h ! mat" using assms(2) by simp
  then show "sim_update h out (f yo xo (h ! mat) w)
               (update_at out (f yo xo (h[out := w] ! mat)) (h[out := w]))"
    using update_at_sim [OF assms(1), of "f yo xo (h ! mat)" w] by simp
qed

lemma take_update_beyond:
  "length h \<le> out \<Longrightarrow> take (length h) ((h @ rest)[out := v]) = h"
  by (simp add: list_update_append)

lemma scale_up_obj_result:
  assumes "mat < length h"
  shows "obj_result h (scale_up (h ! mat) ys xs) (scale_up_obj h mat ys xs)"
proof -
  define z where "z = np_zeros (shape0 (h ! mat) * ys) (shape1 (h ! mat) * xs)"
  define h1 where "h1 = h @ [z]"
  define out where "out = length h"
  have h1: "out < length h1" "mat \<noteq> out" "h1 ! mat = h ! mat" "h1[out := z] = h1"
    using assms by (simp_all add: h1_def out_def nth_append)
  have sim: "sim_update h1 out (scale_up (h ! mat) ys xs)
          (for_range ys (\<lambda>yo. for_range xs (\<lambda>xo h'.
              update_at out (assign_slice2 yo ys xo xs (h' ! mat)) h')) h1)"
    using nested_loops_sim [OF h1(1,2), of ys xs "\<lambda>yo xo. assign_slice2 yo ys xo xs" z]
    by (simp only: h1(3,4) scale_up_def scale_up_loops_def z_def [symmetric])
  have obj: "scale_up_obj h mat ys xs
        = bind (for_range ys (\<lambda>yo. for_range xs (\<lambda>xo h'.
              update_at out (assign_slice2 yo ys xo xs (h' ! mat)) h')) h1) (\<lambda>h'. Inr (out, h'))"
    by (simp add: scale_up_obj_def alloc_def h1_def out_def z_def)
  show ?thesis
  proof (cases "scale_up (h ! mat) ys xs")
    case (Inl e)
    with sim obj show ?thesis
      by (auto simp: sim_update_def obj_result_def h1_def out_def take_update_beyond)
  next
    case (Inr v)
    with sim obj show ?thesis
      by (auto simp: sim_update_def obj_result_def h1_def out_def take_update_beyond)
  qed
qed

lemma sim_update_bind:
  assumes "sim_update h out r R" "\<And>v. sim_update h out (k v) (K (h[out := v]))"
  shows "sim_update h out (bind r k) (bind R K)"
proof (cases r)
  case (Inl e)
  with assms(1) show ?thesis by (auto simp: sim_update_def)
next
  case (Inr v)
  with assms(1) have "R = Inr (h[out := v])" by (simp add: sim_update_def)
  with Inr assms(2) [of v] show ?thesis by simp
qed

lemma sim_update_skip: "sim_update h out (Inr v) (Inr (h[out := v]))"
  by (simp add: sim_update_def)

lemma correct_edges_obj_sim:
  assumes "out < length h"
  shows "sim_update h out (correct_edges ys xs yPad xPad v)
           (correct_edges_obj ys xs yPad xPad out (h[out := v]))"
  unfolding correct_edges_def correct_edges_obj_def
  by (intro sim_update_bind) (auto intro: update_at_sim [OF assms] sim_update_skip)

lemma take_old_objects:
  "length h \<le> out \<Longrightarrow> take (length h) h' = h \<Longrightarrow> take (length h) (h'[out := v]) = h"
  by simp

lemma obj_result_extend:
  assumes "obj_result h1 r R" "take (length h) h1 = h"
  shows "obj_result h r R"
proof -
  have "length (take (length h) h1) = length h"
    using assms(2) by simp
  then have le: "length h \<le> length h1"
    by simp
  have "take (length h) h' = h" if "take (length h1) h' = h1" for h' :: heap
  proof -
    have "take (length h) (take (length h1) h') = take (length h) h'"
      using le by (simp add: min_def)
    with that assms(2) show ?thesis by simp
  qed
  with assms(1) le show ?thesis
    by (auto simp: obj_result_def split: sum.splits)
qed

lemma block_average_obj_result:
  assumes "mat < length h"
  shows "obj_result h (block_average (h ! mat) ys xs) (block_average_obj h mat ys xs)"
proof -
  define z where "z = np_zeros (shape0 (h ! mat) div ys) (shape1 (h ! mat) div xs)"
  define h1 where "h1 = h @ [z]"
  define out where "out = length h"
  define loops where "loops = for_range ys (\<lambda>yo. for_range xs (\<lambda>xo h'.
              update_at out (iadd (slice2 yo ys xo xs (h' ! mat))) h')) h1"
  have h1: "out < length h1" "mat \<noteq> out" "h1 ! mat = h ! mat" "h1[out := z] = h1"
    using assms by (simp_all add: h1_def out_def nth_append)
  have sim: "sim_update h1 out (scale_down_loops (h ! mat) ys xs z) loops"
    using nested_loops_sim [OF h1(1,2), of ys xs "\<lambda>yo xo m. iadd (slice2 yo ys xo xs m)" z]
    by (simp only: h1(3,4) scale_down_loops_def loops_def)
  have obj: "block_average_obj h mat ys xs
        = bind loops (\<lambda>h'. Inr (alloc (div_scalar (h' ! out) (real (xs * ys))) h'))"
    by (simp add: block_average_obj_def alloc_def h1_def out_def z_def loops_def)
  have pure: "block_average (h ! mat) ys xs
        = bind (scale_down_loops (h ! mat) ys xs z) (\<lambda>v. Inr (div_scalar v (real (xs * ys))))"
    by (simp add: block_average_def z_def)
  show ?thesis
  proof (cases "scale_down_loops (h ! mat) ys xs z")
    case (Inl e)
    with sim obtain v where "loops = Inl (e, h1[out := v])"
      by (auto simp: sim_update_def)
    with Inl show ?thesis
      unfolding obj pure
      by (simp add: obj_result_def h1_def out_def take_update_beyond)
  next
    case (Inr v)
    with sim have "loops = Inr (h1[out := v])"
      by (simp add: sim_update_def)
    with Inr h1(1) show ?thesis
      unfolding obj pure
      by (simp add: obj_result_def alloc_def h1_def out_def take_update_beyond nth_append)
  qed
qed

lemma average_and_correct_obj_result:
  assumes "mat < length h"
  shows "obj_result h (bind (block_average (h ! mat) ys xs) (correct_edges ys xs yPad xPad))
           (average_and_correct_obj ys xs yPad xPad mat h)"
proof (cases "block_average (h ! mat) ys xs")
  case (Inl e)
  with block_average_obj_result [OF assms, of ys xs] show ?thesis
    by (auto simp: obj_result_def average_and_correct_obj_def)
next
  case (Inr v)
  with block_average_obj_result [OF assms, of ys xs]
  obtain out h' where r: "block_average_obj h mat ys xs = Inr (out, h')"
      and out: "length h \<le> out" "out < length h'" "h' ! out = v"
      and old: "take (length h) h' = h"
    by (auto simp: obj_result_def)
  have "h'[out := v] = h'" using out by (metis list_update_id)
  with correct_edges_obj_sim [OF out(2), of ys xs yPad xPad v]
  have sim: "sim_update h' out (correct_edges ys xs yPad xPad v)
               (correct_edges_obj ys xs yPad xPad out h')"
    by simp
  show ?thesis
  proof (cases "correct_edges ys xs yPad xPad v")
    case (Inl e)
    with sim obtain w where "correct_edges_obj ys xs yPad xPad out h' = Inl (e, h'[out := w])"
      by (auto simp: sim_update_def)
    with Inl Inr r out old show ?thesis
      by (simp add: obj_result_def average_and_correct_obj_def)
  next
    case (Inr w)
    with sim have "correct_edges_obj ys xs yPad xPad out h' = Inr (h'[out := w])"
      by (simp add: sim_update_def)
    with Inr \<open>block_average (h ! mat) ys xs = Inr v\<close> r out old show ?thesis
      by (simp add: obj_result_def average_and_correct_obj_def)
  qed
qed

lemma pad_matrix_obj_result:
  assumes "mat < length h"
  shows "case pad_matrix_obj yPad xPad mat h of
           (mat', h1) \<Rightarrow> mat' < length h1 \<and> h1 ! mat' = pad_matrix yPad xPad (h ! mat)
                          \<and> take (length h) h1 = h"
  using assms
  by (simp add: pad_matrix_obj_def pad_matrix_def alloc_def Let_def nth_append)

lemma scale_down_obj_result:
  assumes "mat < length h"
  shows "obj_result h (scale_down (h ! mat) ys xs strict) (scale_down_obj h mat ys xs strict)"
proof (cases strict)
  case True
  then show ?thesis
    using average_and_correct_obj_result [OF assms, of ys xs 0 0]
    by (simp add: scale_down_def scale_down_obj_def obj_result_def)
next
  case False
  obtain yPad xPad where pads: "pad_amounts (h ! mat) ys xs = (yPad, xPad)"
    by (cases "pad_amounts (h ! mat) ys xs")
  obtain mat' h1 where p: "pad_matrix_obj yPad xPad mat h = (mat', h1)"
    by (cases "pad_matrix_obj yPad xPad mat h")
  with pad_matrix_obj_result [OF assms, of yPad xPad]
  have p1: "mat' < length h1" "h1 ! mat' = pad_matrix yPad xPad (h ! mat)"
       "take (length h) h1 = h"
    by simp_all
  have "obj_result h1 (bind (block_average (h1 ! mat') ys xs) (correct_edges ys xs yPad xPad))
           (average_and_correct_obj ys xs yPad xPad mat' h1)"
    by (rule average_and_correct_obj_result [OF p1(1)])
  from obj_result_extend [OF this p1(3)] show ?thesis
    using False pads p p1(2) by (simp add: scale_down_def scale_down_obj_def)
qed

lemma obj_result_cases:
  assumes "obj_result h r R"
  shows "case R of
           Inl (e, h') \<Rightarrow> r = Inl e \<and> take (length h) h' = h
         | Inr (out, h') \<Rightarrow> r = Inr (h' ! out) \<and> out < length h' \<and> take (length h) h' = h
                              \<and> length h \<le> out"
  using assms by (cases r) (auto simp: obj_result_def)


section \<open>The claims\<close>

text \<open>
  Claim C1, evaluated. A 3 by 4 grid scaled by \<open>(-2, -2)\<close> with \<open>strict = False\<close> has
  \<open>yPad = 1\<close> and \<open>xPad = 0\<close>. The claim asks for the last row of the averages, without
  its corner, to be multiplied by \<open>ys / (ys - yPad) = 2\<close>: cell \<open>(1, 0)\<close> would go from
  \<open>19/4\<close> to \<open>19/2\<close> and cell \<open>(0, 1)\<close> would stay \<open>11/2\<close>. The function multiplies
  the last column instead: cell \<open>(0, 1)\<close> becomes \<open>11\<close> and cell \<open>(1, 0)\<close> stays
  \<open>19/4\<close>.
\<close>

theorem edge_correction_swapped:
  "pad_amounts [[1, 2, 3, 4], [5, 6, 7, 8], [9, 10, 11, 12]] 2 2 = (1, 0)
   \<and> block_average (pad_matrix 1 0 [[1, 2, 3, 4], [5, 6, 7, 8], [9, 10, 11, 12]]) 2 2
       = Inr [[7 / 2, 11 / 2], [19 / 4, 23 / 4]]
   \<and> scaleMatrix [[1, 2, 3, 4], [5, 6, 7, 8], [9, 10, 11, 12]]
        (Pair (PyInt (- 2)) (PyInt (- 2))) False
       = Inr [[7 / 2, 11], [19 / 4, 23 / 2]]"
  by code_simp

text \<open>
  Claim C2, evaluated. A 2 by 3 grid of ones scaled by \<open>(-2, -2)\<close> with
  \<open>strict = False\<close> has \<open>yPad = 0\<close> and \<open>xPad = 1\<close>. The mean of the real cells of
  each block is 1; the function returns 2 for the first block, which has no padding,
  and 1/2 for the second one, whose padding stays in the divisor.
\<close>

theorem lenient_mean_diluted:
  "scaleMatrix [[1, 1, 1], [1, 1, 1]] (Pair (PyInt (- 2)) (PyInt (- 2))) False
   = Inr [[2, 1 / 2]]"
  by code_simp

text \<open>
  Claim C3. The worked example: the 4 by 4 grid scaled by \<open>(-3, -3)\<close> with
  \<open>strict = False\<close> gives \<open>[[23/9, 3], [7, 9]]\<close>.
\<close>

theorem lenient_worked_example:
  "scaleMatrix [[1, 1, 1, 1], [2, 2, 3, 3], [4, 4, 5, 5], [6, 7, 8, 9]]
     (Pair (PyInt (- 3)) (PyInt (- 3))) False
   = Inr [[23 / 9, 3], [7, 9]]"
  by code_simp

text \<open>
  Claim C4. With \<open>strict = False\<close>, let \<open>raw\<close> be the block average of the padded
  grid. When only the rows are padded (\<open>yPad > 0\<close>, \<open>xPad = 0\<close>) the corner cell of the
  result is the corner of \<open>raw\<close> times \<open>ys / (ys - yPad)\<close>; when only the columns are
  padded (\<open>xPad > 0\<close>, \<open>yPad = 0\<close>) the corner cell of the result is the corner of
  \<open>raw\<close>, uncorrected, since the corner is corrected under \<open>yPad > 0\<close> only.
\<close>

theorem corner_correction_asymmetric:
  assumes "is_matrix mat" "0 < ys" "0 < xs" "0 < shape1 mat"
    and pads: "pad_amounts mat ys xs = (yPad, xPad)"
  shows "\<exists>raw out.
           block_average (pad_matrix yPad xPad mat) ys xs = Inr raw
         \<and> scaleMatrix mat (Pair (PyInt (- int ys)) (PyInt (- int xs))) False = Inr out
         \<and> shape0 out = shape0 raw \<and> shape1 out = shape1 raw
         \<and> (0 < yPad \<and> xPad = 0 \<longrightarrow> corner out = corner raw * (real ys / real (ys - yPad)))
         \<and> (0 < xPad \<and> yPad = 0 \<longrightarrow> corner out = corner raw)"
proof -
  from scale_down_lenient [OF assms]
  obtain g r c where g: "block_average (pad_matrix yPad xPad mat) ys xs = Inr (tabulate2 r c g)"
    and d: "scale_down mat ys xs False = correct_edges ys xs yPad xPad (tabulate2 r c g)"
    and pos: "0 < r" "0 < c"
    by blast
  let ?out = "tabulate2 r c (\<lambda>i j.
         if i < r - 1 \<and> j = c - 1 then
           (if 0 < yPad then g i j * (real ys / real (ys - yPad)) else g i j)
         else if i = r - 1 \<and> j < c - 1 then
           (if 0 < xPad then g i j * (real xs / real (xs - xPad)) else g i j)
         else if i = r - 1 \<and> j = c - 1 then
           (if 0 < yPad then g i j * (real (ys * xs) / real (ys - yPad) / real (xs - xPad))
            else g i j)
         else g i j)"
  have out: "scaleMatrix mat (Pair (PyInt (- int ys)) (PyInt (- int xs))) False = Inr ?out"
    using assms(2,3) d pos by (simp add: scaleMatrix_down correct_edges_tabulate2)
  have "0 < yPad \<and> xPad = 0 \<longrightarrow> corner ?out = corner (tabulate2 r c g) * (real ys / real (ys - yPad))"
    using pos assms(3) by (simp add: corner_tabulate2)
  moreover have "0 < xPad \<and> yPad = 0 \<longrightarrow> corner ?out = corner (tabulate2 r c g)"
    using pos by (simp add: corner_tabulate2)
  ultimately show ?thesis
    using g out by (intro exI [of _ "tabulate2 r c g"] exI [of _ ?out]) (simp add: shape1_tabulate2)
qed

theorem corner_correction_asymmetric_witness:
  "(\<exists>raw out.
       block_average (pad_matrix 1 0 [[1, 2, 3, 4], [5, 6, 7, 8], [9, 10, 11, 12]]) 2 2 = Inr raw
     \<and> scaleMatrix [[1, 2, 3, 4], [5, 6, 7, 8], [9, 10, 11, 12]]
          (Pair (PyInt (- 2)) (PyInt (- 2))) False = Inr out
     \<and> corner out = corner raw * 2)
   \<and> (\<exists>raw out.
       block_average (pad_matrix 0 1 [[1, 1, 1], [1, 1, 1]]) 2 2 = Inr raw
     \<and> scaleMatrix [[1, 1, 1], [1, 1, 1]] (Pair (PyInt (- 2)) (PyInt (- 2))) False = Inr out
     \<and> corner out = corner raw)"
proof -
  let ?a = "[[1, 2, 3, 4], [5, 6, 7, 8], [9, 10, 11, 12]] :: matrix"
  let ?b = "[[1, 1, 1], [1, 1, 1]] :: matrix"
  have two: "(0::nat) < 2" by simp
  have a: "is_matrix ?a" "0 < shape1 ?a" "pad_amounts ?a 2 2 = (1, 0)"
    by (simp_all add: is_matrix_def shape0_def shape1_def pad_amounts_def)
  have b: "is_matrix ?b" "0 < shape1 ?b" "pad_amounts ?b 2 2 = (0, 1)"
    by (simp_all add: is_matrix_def shape0_def shape1_def pad_amounts_def)
  show ?thesis
    using corner_correction_asymmetric [OF a(1) two two a(2,3)]
          corner_correction_asymmetric [OF b(1) two two b(2,3)]
    by auto
qed

text \<open>
  Claim C5. Scaling up by positive factors succeeds for either value of \<open>strict\<close>; the
  result has \<open>rows * rowScale\<close> rows and \<open>cols * colScale\<close> columns, and its cell
  \<open>(r, c)\<close> is the input cell \<open>(r div rowScale, c div colScale)\<close>: every input cell is
  repeated over a block, nothing is averaged.
\<close>

theorem upscale_replicates:
  assumes "0 < rowScale" "0 < colScale"
  shows "\<exists>out. scaleMatrix mat (Pair (PyInt rowScale) (PyInt colScale)) strict = Inr out
           \<and> is_matrix out
           \<and> shape0 out = shape0 mat * nat rowScale
           \<and> shape1 out = shape1 mat * nat colScale
           \<and> (\<forall>r < shape0 mat * nat rowScale. \<forall>c < shape1 mat * nat colScale.
                 out ! r ! c = mat ! (r div nat rowScale) ! (c div nat colScale))"
proof -
  let ?out = "tabulate2 (shape0 mat * nat rowScale) (shape1 mat * nat colScale)
                (\<lambda>p q. mat ! (p div nat rowScale) ! (q div nat colScale))"
  have "scaleMatrix mat (Pair (PyInt rowScale) (PyInt colScale)) strict = Inr ?out"
    using assms by (simp add: scaleMatrix_up scale_up_closed)
  moreover have "shape1 ?out = shape1 mat * nat colScale"
    using assms by (simp add: shape1_tabulate2 shape1_empty)
  ultimately show ?thesis
    by (intro exI [of _ ?out]) (simp add: nth_tabulate2)
qed

theorem upscale_replicates_witness:
  "\<exists>out. scaleMatrix [[1, 2], [3, 4]] (Pair (PyInt 2) (PyInt 3)) True = Inr out
      \<and> is_matrix out \<and> shape0 out = 4 \<and> shape1 out = 6
      \<and> out ! 0 ! 5 = 2 \<and> out ! 3 ! 2 = 3"
proof -
  have "(0::int) < 2" "(0::int) < 3" by simp_all
  from upscale_replicates [OF this, of "[[1, 2], [3, 4]]" True]
  obtain out where out: "scaleMatrix [[1, 2], [3, 4]] (Pair (PyInt 2) (PyInt 3)) True = Inr out"
      "is_matrix out" "shape0 out = 4" "shape1 out = 6"
      and cells: "\<forall>r<4. \<forall>c<6. out ! r ! c = [[1, 2], [3, 4]] ! (r div 2) ! (c div 3)"
    by (auto simp: shape0_def shape1_def)
  from cells have "out ! 0 ! 5 = 2" "out ! 3 ! 2 = 3" by simp_all
  with out show ?thesis by blast
qed

text \<open>
  Claim C6. Scaling down by factors that divide the dimensions succeeds for either value
  of \<open>strict\<close>; the result has \<open>rows div ys\<close> rows and \<open>cols div xs\<close> columns, and
  its cell \<open>(i, j)\<close> is the arithmetic mean of the \<open>ys * xs\<close> input cells
  \<open>(i * ys + yo, j * xs + xo)\<close> with \<open>yo < ys\<close> and \<open>xo < xs\<close>.
\<close>

theorem exact_downscale_mean:
  assumes "is_matrix mat" "0 < ys" "0 < xs" "shape0 mat mod ys = 0" "shape1 mat mod xs = 0"
  shows "\<exists>out. scaleMatrix mat (Pair (PyInt (- int ys)) (PyInt (- int xs))) strict = Inr out
           \<and> is_matrix out
           \<and> shape0 out = shape0 mat div ys
           \<and> shape1 out = shape1 mat div xs
           \<and> (\<forall>i < shape0 mat div ys. \<forall>j < shape1 mat div xs.
                 out ! i ! j
                 = (\<Sum>yo<ys. \<Sum>xo<xs. mat ! (i * ys + yo) ! (j * xs + xo)) / real (ys * xs))"
proof -
  let ?out = "tabulate2 (shape0 mat div ys) (shape1 mat div xs)
             (\<lambda>i j. (\<Sum>yo<ys. \<Sum>xo<xs. mat ! (yo + i * ys) ! (xo + j * xs)) / real (xs * ys))"
  have "scaleMatrix mat (Pair (PyInt (- int ys)) (PyInt (- int xs))) strict = Inr ?out"
    using assms by (simp add: scaleMatrix_down scale_down_exact)
  moreover have "shape0 mat div ys = 0 \<Longrightarrow> shape1 mat div xs = 0"
    using assms(2,4) by (auto simp: shape1_empty)
  then have "shape1 ?out = shape1 mat div xs"
    by (auto simp: shape1_tabulate2)
  ultimately show ?thesis
    by (intro exI [of _ ?out]) (simp add: nth_tabulate2 add.commute mult.commute)
qed

theorem exact_downscale_mean_witness:
  "\<exists>out. scaleMatrix [[1, 1, 1, 1], [2, 2, 3, 3], [4, 4, 5, 5], [6, 7, 8, 9]]
            (Pair (PyInt (- 2)) (PyInt (- 2))) True = Inr out
      \<and> is_matrix out \<and> shape0 out = 2 \<and> shape1 out = 2
      \<and> out ! 1 ! 0 = 21 / 4 \<and> out ! 1 ! 1 = 27 / 4"
proof -
  let ?m = "[[1, 1, 1, 1], [2, 2, 3, 3], [4, 4, 5, 5], [6, 7, 8, 9]] :: matrix"
  have "is_matrix ?m" "(0::nat) < 2" "shape0 ?m mod 2 = 0" "shape1 ?m mod 2 = 0"
    by (simp_all add: is_matrix_def shape0_def shape1_def)
  from exact_downscale_mean [OF this(1,2,2,3,4), of True]
  obtain out where out: "scaleMatrix ?m (Pair (PyInt (- 2)) (PyInt (- 2))) True = Inr out"
      "is_matrix out" "shape0 out = 2" "shape1 out = 2"
      and cells: "\<forall>i<2. \<forall>j<2. out ! i ! j
                   = (\<Sum>yo<2. \<Sum>xo<2. ?m ! (i * 2 + yo) ! (j * 2 + xo)) / real (2 * 2)"
    by (auto simp: shape0_def shape1_def)
  from cells have "out ! 1 ! 0 = 21 / 4" "out ! 1 ! 1 = 27 / 4"
    by (simp_all add: lessThan_Suc numeral_2_eq_2)
  with out show ?thesis by blast
qed

text \<open>
  Claim C7. The error "Matrix can only be scaled down by a factor of it's dimensions" is
  the result exactly when both factors are negative, \<open>strict\<close> is set, and a factor
  does not divide its dimension. A 4 by 4 grid scaled by \<open>(-3, -3)\<close> with
  \<open>strict = True\<close> is such a call. The result is then the error alone: no array is
  returned.
\<close>

theorem nondivisible_error_iff:
  "(scaleMatrix mat scale strict = Inl nondivisible_error
    \<longleftrightarrow> (\<exists>yScale xScale. unpack_scale scale = Inr (yScale, xScale)
           \<and> yScale < 0 \<and> xScale < 0 \<and> strict
           \<and> (shape0 mat mod nat (- yScale) \<noteq> 0 \<or> shape1 mat mod nat (- xScale) \<noteq> 0)))
   \<and> (shape0 mat = 4 \<and> shape1 mat = 4
        \<longrightarrow> scaleMatrix mat (Pair (PyInt (- 3)) (PyInt (- 3))) True = Inl nondivisible_error)"
proof (intro conjI impI)
  show "scaleMatrix mat scale strict = Inl nondivisible_error
    \<longleftrightarrow> (\<exists>yScale xScale. unpack_scale scale = Inr (yScale, xScale)
           \<and> yScale < 0 \<and> xScale < 0 \<and> strict
           \<and> (shape0 mat mod nat (- yScale) \<noteq> 0 \<or> shape1 mat mod nat (- xScale) \<noteq> 0))"
  proof (cases "unpack_scale scale")
    case (Inl e)
    then have "e = ValueError ''scale must be integer types''"
      by (cases scale rule: unpack_scale.cases) auto
    then show ?thesis
      using Inl by (simp add: scaleMatrix_def nondivisible_error_def)
  next
    case (Inr p)
    obtain y x where p: "p = (y, x)" by (cases p)
    have up: "scale_up mat (nat y) (nat x) \<noteq> Inl nondivisible_error"
      using scale_up_error [of mat "nat y" "nat x" nondivisible_error]
      by (auto simp: nondivisible_error_distinct)
    show ?thesis
      using Inr p up
      by (auto simp: scaleMatrix_def scale_down_nondivisible nondivisible_error_distinct
            nondivisible_error_distinct [THEN not_sym])
  qed
next
  assume "shape0 mat = 4 \<and> shape1 mat = 4"
  then show "scaleMatrix mat (Pair (PyInt (- 3)) (PyInt (- 3))) True = Inl nondivisible_error"
    by (simp add: scaleMatrix_def scale_down_def)
qed

theorem nondivisible_error_iff_witness:
  "scaleMatrix [[1, 1, 1, 1], [2, 2, 3, 3], [4, 4, 5, 5], [6, 7, 8, 9]]
     (Pair (PyInt (- 3)) (PyInt (- 3))) True = Inl nondivisible_error
   \<and> scaleMatrix [[1, 1, 1, 1], [2, 2, 3, 3], [4, 4, 5, 5], [6, 7, 8, 9]]
     (Pair (PyInt (- 3)) (PyInt (- 3))) False \<noteq> Inl nondivisible_error
   \<and> scaleMatrix [[1, 1, 1, 1], [2, 2, 3, 3], [4, 4, 5, 5], [6, 7, 8, 9]]
     (Pair (PyInt (- 2)) (PyInt (- 2))) True \<noteq> Inl nondivisible_error"
  using nondivisible_error_iff
          [of "[[1, 1, 1, 1], [2, 2, 3, 3], [4, 4, 5, 5], [6, 7, 8, 9]]"
              "Pair (PyInt (- 3)) (PyInt (- 3))" False]
        nondivisible_error_iff
          [of "[[1, 1, 1, 1], [2, 2, 3, 3], [4, 4, 5, 5], [6, 7, 8, 9]]"
              "Pair (PyInt (- 2)) (PyInt (- 2))" True]
        nondivisible_error_iff
          [of "[[1, 1, 1, 1], [2, 2, 3, 3], [4, 4, 5, 5], [6, 7, 8, 9]]"
              "Pair (PyInt (- 3)) (PyInt (- 3))" True]
  by (simp add: shape0_def shape1_def)



text \<open>
  Claim C9, at the scale \<open>(0, 0)\<close>. The call returns the reference it was given and
  allocates nothing: the returned grid is the input object itself, not a new one.
\<close>

theorem identity_returns_input_object:
  "scaleMatrix_obj [[[1, 2], [3, 4]]] 0 (Pair (PyInt 0) (PyInt 0)) True
   = Inr (0, [[[1, 2], [3, 4]]])"
  by (simp add: scaleMatrix_obj_def)

text \<open>
  Claim C9, amended. A call on an existing array computes what \<open>scaleMatrix\<close> computes
  on its value. Whether it returns or raises, every object that existed before the
  call, the input among them, is unchanged. A successful call with a scale other than
  \<open>(0, 0)\<close> returns an object allocated during the call, hence distinct from the input;
  with the scale \<open>(0, 0)\<close> it returns the input object and leaves the heap as it was.
\<close>

theorem returned_object_and_frame:
  assumes "mat < length h"
  shows "case scaleMatrix_obj h mat scale strict of
           Inl (e, h') \<Rightarrow> scaleMatrix (h ! mat) scale strict = Inl e \<and> take (length h) h' = h
         | Inr (out, h') \<Rightarrow>
             scaleMatrix (h ! mat) scale strict = Inr (h' ! out) \<and> out < length h'
             \<and> take (length h) h' = h
             \<and> (if unpack_scale scale = Inr (0, 0) then out = mat \<and> h' = h
                 else length h \<le> out)"
proof (cases "unpack_scale scale")
  case (Inl e)
  then show ?thesis
    by (simp add: scaleMatrix_obj_def scaleMatrix_def)
next
  case (Inr p)
  obtain y x where p: "p = (y, x)" by (cases p)
  define zero where "zero \<longleftrightarrow> x = 0 \<and> y = 0"
  define up where "up \<longleftrightarrow> 0 < x \<and> 0 < y"
  define down where "down \<longleftrightarrow> x < 0 \<and> y < 0"
  have z: "unpack_scale scale = Inr (0, 0) \<longleftrightarrow> zero"
    using Inr p by (auto simp: zero_def)
  have pure: "scaleMatrix (h ! mat) scale strict
      = (if zero then Inr (h ! mat)
         else if up then scale_up (h ! mat) (nat y) (nat x)
         else if down then scale_down (h ! mat) (nat (- y)) (nat (- x)) strict
         else Inl direction_error)"
    using Inr p by (simp add: scaleMatrix_def zero_def up_def down_def)
  have obj: "scaleMatrix_obj h mat scale strict
      = (if zero then Inr (mat, h)
         else if up then scale_up_obj h mat (nat y) (nat x)
         else if down then scale_down_obj h mat (nat (- y)) (nat (- x)) strict
         else Inl (direction_error, h))"
    using Inr p by (simp add: scaleMatrix_obj_def zero_def up_def down_def)
  note u = obj_result_cases [OF scale_up_obj_result [OF assms, of "nat y" "nat x"]]
  note d = obj_result_cases [OF scale_down_obj_result [OF assms, of "nat (- y)" "nat (- x)" strict]]
  show ?thesis
  proof (cases zero)
    case True
    then show ?thesis
      unfolding pure obj z using assms by simp
  next
    case False
    note nz = this
    show ?thesis
    proof (cases up)
      case True
      with nz u show ?thesis
        unfolding pure obj z by (auto split: sum.splits)
    next
      case False
      note nu = this
      show ?thesis
      proof (cases down)
        case True
        with nz nu d show ?thesis
          unfolding pure obj z by (auto split: sum.splits)
      next
        case False
        with nz nu show ?thesis
          unfolding pure obj z by simp
      qed
    qed
  qed
qed

theorem returned_object_and_frame_witness:
  "\<exists>out h'. scaleMatrix_obj [[[1, 2], [3, 4]]] 0 (Pair (PyInt (- 2)) (PyInt (- 2))) True
               = Inr (out, h')
      \<and> scaleMatrix [[1, 2], [3, 4]] (Pair (PyInt (- 2)) (PyInt (- 2))) True = Inr (h' ! out)
      \<and> 1 \<le> out \<and> take 1 h' = [[[1, 2], [3, 4]]]"
proof -
  have e: "scaleMatrix_obj [[[1, 2], [3, 4]]] 0 (Pair (PyInt (- 2)) (PyInt (- 2))) True
           = Inr (2, [[[1, 2], [3, 4]], [[10]], [[5 / 2]]])"
    by code_simp
  have "(0::nat) < length [[[1, 2], [3, 4 :: real]]]" by simp
  from returned_object_and_frame [OF this, of "Pair (PyInt (- 2)) (PyInt (- 2))" True] e
  show ?thesis by simp
qed

text \<open>
  Claim C10. A scale pair with exactly one component zero raises the error of the last
  branch, "Dimensions must be scaled in the same direction"; it is neither the identity
  nor a scaling of one axis.
\<close>

theorem one_zero_component_rejected:
  assumes "(yScale = 0 \<and> xScale \<noteq> 0) \<or> (yScale \<noteq> 0 \<and> xScale = 0)"
  shows "scaleMatrix mat (Pair (PyInt yScale) (PyInt xScale)) strict = Inl direction_error"
  using assms by (auto simp: scaleMatrix_def)

theorem one_zero_component_rejected_witness:
  "scaleMatrix [[1, 2], [3, 4]] (Pair (PyInt 0) (PyInt 2)) True = Inl direction_error
   \<and> scaleMatrix [[1, 2], [3, 4]] (Pair (PyInt (- 3)) (PyInt 0)) False = Inl direction_error"
  using one_zero_component_rejected [of 0 2 "[[1, 2], [3, 4]]" True]
        one_zero_component_rejected [of "- 3" 0 "[[1, 2], [3, 4]]" False]
  by simp

end
